theory Spec2Isabelle
  imports Complex_Main "HOL-Library.Sublist"
begin

section \<open>String primitives of the host language\<close>

text \<open>
  The plugin is TypeScript. Its strings are sequences of code units, and every string
  operation the transformer uses (\<open>===\<close>, \<open>startsWith\<close>, \<open>endsWith\<close>,
  \<open>substring\<close>, \<open>+\<close>, \<open>replace\<close> with a string pattern) works unit by unit.
  They are modelled on \<^typ>\<open>string\<close>, one \<^typ>\<open>char\<close> for one code unit.
\<close>

definition startsWith :: "string \<Rightarrow> string \<Rightarrow> bool" where
  "startsWith s p = prefix p s"

definition endsWith :: "string \<Rightarrow> string \<Rightarrow> bool" where
  "endsWith s p = suffix p s"

text \<open>\<open>s.substring(n)\<close> for \<open>0 \<le> n\<close>: the units from index \<open>n\<close> on (empty past the end).\<close>

definition substring_from :: "string \<Rightarrow> nat \<Rightarrow> string" where
  "substring_from s n = drop n s"

section \<open>The URL parser of the platform\<close>

text \<open>
  \<open>new URL(url)\<close> is the platform's parser, not code of the plugin. It either throws
  (\<open>None\<close>) or gives an object of which the plugin reads five fields. The parser is a
  parameter of every function that calls it.
\<close>

record URL_obj =
  protocol :: string
  hostname :: string
  pathname :: string
  search :: string
  hash :: string

type_synonym url_parser = "string \<Rightarrow> URL_obj option"

section \<open>Rule model (transformation-types.ts)\<close>

text \<open>
  \<open>transformationType\<close> is declared as the union \<open>"prefix" | "path-extraction"\<close>; the
  rules are read from a JSON file without validation and the \<open>switch\<close> of
  \<open>applyTransformation\<close> has a \<open>default\<close> branch, which \<open>OtherType\<close> stands for.
  Priorities are entered through \<open>parseInt\<close>, hence integers.
\<close>

datatype TransformationType = Prefix | PathExtraction | OtherType

record TransformationRule =
  rule_id :: string
  name :: string
  enabled :: bool
  matchers :: "string list"
  transformationType :: TransformationType
  template :: string
  priority :: int

section \<open>URL matcher (url-transformer.ts, lines 16 to 43)\<close>

text \<open>
  The whole body of \<open>matchesPattern\<close> is inside \<open>try\<close>; the only statement that can
  throw is \<open>new URL(url)\<close>, and the \<open>catch\<close> returns \<open>false\<close>.
\<close>

definition matchesPattern :: "url_parser \<Rightarrow> string \<Rightarrow> string \<Rightarrow> bool" where
  "matchesPattern URL url pattern =
     (case URL url of
        None \<Rightarrow> False
      | Some urlObj \<Rightarrow>
          if pattern = ''*'' then True
          else if startsWith pattern ''*.'' then
            (let domain = substring_from pattern 2
             in hostname urlObj = domain \<or> endsWith (hostname urlObj) (''.'' @ domain))
          else hostname urlObj = pattern)"

definition matchesRule :: "url_parser \<Rightarrow> string \<Rightarrow> TransformationRule \<Rightarrow> bool" where
  "matchesRule URL url rule =
     (if \<not> enabled rule then False
      else list_ex (\<lambda>matcher. matchesPattern URL url matcher) (matchers rule))"

text \<open>
  \<open>Array.prototype.sort(cmp)\<close> sorts in place and is stable (ECMAScript 2019 onwards,
  which every runtime of the host application implements): for a consistent comparator
  the result is the one permutation that is ordered by \<open>cmp\<close> and keeps equal elements
  in their input order. A stable insertion sort computes that permutation: \<open>x\<close>, which
  precedes every element of the sorted rest in the input, goes in front of the first
  element it does not have to follow.
\<close>

fun sort_insert :: "('a \<Rightarrow> 'a \<Rightarrow> int) \<Rightarrow> 'a \<Rightarrow> 'a list \<Rightarrow> 'a list" where
  "sort_insert cmp x [] = [x]"
| "sort_insert cmp x (y # ys) =
     (if cmp x y \<le> 0 then x # y # ys else y # sort_insert cmp x ys)"

fun array_sort :: "('a \<Rightarrow> 'a \<Rightarrow> int) \<Rightarrow> 'a list \<Rightarrow> 'a list" where
  "array_sort cmp [] = []"
| "array_sort cmp (x # xs) = sort_insert cmp x (array_sort cmp xs)"

text \<open>
  \<open>findMatchingRule\<close> (lines 45 to 54). \<open>matchingRules[0]\<close> is read after the length
  check, so the empty case of the last \<open>case\<close> is never reached
  (lemma \<open>array_sort_Nil_iff\<close>).
\<close>

definition findMatchingRule ::
  "url_parser \<Rightarrow> string \<Rightarrow> TransformationRule list \<Rightarrow> TransformationRule option" where
  "findMatchingRule URL url rules =
     (let matchingRules = filter (\<lambda>rule. matchesRule URL url rule) rules
      in if length matchingRules = 0 then None
         else (case array_sort (\<lambda>a b. priority b - priority a) matchingRules of
                 [] \<Rightarrow> None
               | first # _ \<Rightarrow> Some first))"

section \<open>Template expander (url-transformer.ts, lines 56 to 91)\<close>

text \<open>
  \<open>str.replace(searchValue, replaceValue)\<close> with two strings, as ECMAScript defines
  it: the first occurrence of \<open>searchValue\<close> is replaced, and the replacement text is
  not \<open>replaceValue\<close> itself but its expansion by \<open>GetSubstitution\<close>, in which
  \<open>$$\<close> stands for \<open>$\<close>, \<open>$&\<close> for the matched text, \<open>$`\<close> for the text before the
  match and \<open>$'\<close> for the text after it. A string pattern has no capture groups, so
  \<open>$1\<close> \<dots> \<open>$99\<close> and \<open>$<\<close> stay as they are, as does a \<open>$\<close> before any other
  unit or at the end.
\<close>

fun indexOf :: "string \<Rightarrow> string \<Rightarrow> nat option" where
  "indexOf [] searchString = (if searchString = [] then Some 0 else None)"
| "indexOf (c # cs) searchString =
     (if prefix searchString (c # cs) then Some 0
      else map_option Suc (indexOf cs searchString))"

fun getSubstitution :: "string \<Rightarrow> string \<Rightarrow> nat \<Rightarrow> string \<Rightarrow> string" where
  "getSubstitution matched str position [] = []"
| "getSubstitution matched str position [c] = [c]"
| "getSubstitution matched str position (c # d # rest) =
     (if c = CHR ''$'' \<and> d = CHR ''$'' then
        CHR ''$'' # getSubstitution matched str position rest
      else if c = CHR ''$'' \<and> d = CHR 0x60 then
        take position str @ getSubstitution matched str position rest
      else if c = CHR ''$'' \<and> d = CHR ''&'' then
        matched @ getSubstitution matched str position rest
      else if c = CHR ''$'' \<and> d = CHR 0x27 then
        drop (min (position + length matched) (length str)) str
          @ getSubstitution matched str position rest
      else c # getSubstitution matched str position (d # rest))"

definition string_replace :: "string \<Rightarrow> string \<Rightarrow> string \<Rightarrow> string" where
  "string_replace str searchValue replaceValue =
     (case indexOf str searchValue of
        None \<Rightarrow> str
      | Some pos \<Rightarrow>
          take pos str @ getSubstitution searchValue str pos replaceValue
            @ drop (pos + length searchValue) str)"

text \<open>
  \<open>applyTransformation\<close>. In the \<open>path-extraction\<close> branch \<open>new URL(url)\<close> may throw;
  the \<open>catch\<close> returns what the \<open>prefix\<close> branch returns.
\<close>

definition applyTransformation :: "url_parser \<Rightarrow> string \<Rightarrow> TransformationRule \<Rightarrow> string" where
  "applyTransformation URL url rule =
     (case transformationType rule of
        Prefix \<Rightarrow> string_replace (template rule) ''{url}'' url
      | PathExtraction \<Rightarrow>
          (case URL url of
             Some urlObj \<Rightarrow>
               (let path = pathname urlObj @ search urlObj @ hash urlObj;
                    domain = hostname urlObj
                in string_replace
                     (string_replace (string_replace (template rule) ''{url}'' url)
                        ''{path}'' path)
                     ''{domain}'' domain)
           | None \<Rightarrow> string_replace (template rule) ''{url}'' url)
      | OtherType \<Rightarrow> string_replace (template rule) ''{url}'' url)"

definition extractProxyBaseUrl :: "url_parser \<Rightarrow> string \<Rightarrow> string" where
  "extractProxyBaseUrl URL transformedUrl =
     (case URL transformedUrl of
        Some urlObj \<Rightarrow> protocol urlObj @ ''//'' @ hostname urlObj
      | None \<Rightarrow> transformedUrl)"

section \<open>Proxy health cache and checker (url-transformer.ts, lines 93 to 140)\<close>

text \<open>
  The transformer object: the cache is a dictionary from proxy origin to an entry, the
  two settings are fixed by the constructor.
\<close>

record health_entry =
  healthy :: bool
  lastChecked :: int

record UrlTransformer =
  healthCache :: "string \<rightharpoonup> health_entry"
  cacheTtlMs :: int
  timeoutMs :: int

definition new_UrlTransformer :: "int \<Rightarrow> int \<Rightarrow> UrlTransformer" where
  "new_UrlTransformer cacheTtlMinutes timeout =
     \<lparr>healthCache = Map.empty, cacheTtlMs = cacheTtlMinutes * 60 * 1000, timeoutMs = timeout\<rparr>"

text \<open>
  The outside world. \<open>Date.now()\<close> reads a millisecond clock. \<open>requestUrl\<close> is the
  host's network primitive: a request issued at some time for some address settles after
  a finite delay, either with a response that carries a status or by throwing (network
  failure, or an error status the host turns into an exception). The world records the
  clock and the addresses requested so far, in order.
\<close>

datatype outcome = Status int | Throws

record response =
  delay :: nat
  outcome :: outcome

type_synonym network = "int \<Rightarrow> string \<Rightarrow> response"

record world =
  now :: int
  requests :: "string list"

definition TEST_URL :: string where
  "TEST_URL = ''https://example.com/test''"

definition isCacheValid :: "UrlTransformer \<Rightarrow> world \<Rightarrow> string \<Rightarrow> bool" where
  "isCacheValid this w proxyBaseUrl =
     (case healthCache this proxyBaseUrl of
        None \<Rightarrow> False
      | Some cached \<Rightarrow> now w - lastChecked cached < cacheTtlMs this)"

text \<open>
  \<open>checkProxyHealthWithTimeout\<close> (lines 103 to 120). The function creates an
  \<open>AbortController\<close> and a timer that calls \<open>controller.abort()\<close> after \<open>timeoutMs\<close>,
  but \<open>controller.signal\<close> is passed to nobody: \<open>requestUrl\<close> receives only \<open>url\<close> and
  \<open>method\<close>. The timer therefore changes nothing that the function reads, and the
  \<open>await\<close> lasts until the request settles by itself. Both exits clear the timer.
\<close>

definition checkProxyHealthWithTimeout ::
  "network \<Rightarrow> UrlTransformer \<Rightarrow> world \<Rightarrow> string \<Rightarrow> bool \<times> world" where
  "checkProxyHealthWithTimeout requestUrl this w url =
     (let response = requestUrl (now w) url;
          w' = w\<lparr>now := now w + int (delay response), requests := requests w @ [url]\<rparr>
      in case outcome response of
           Status status \<Rightarrow> (200 \<le> status \<and> status < 400, w')
         | Throws \<Rightarrow> (False, w'))"

text \<open>
  \<open>checkProxyHealth\<close> (lines 122 to 140). On the first branch the entry is read a
  second time; \<open>isCacheValid\<close> has just found it, so the \<open>None\<close> case there is never
  reached (lemma \<open>isCacheValid_entry\<close>).
\<close>

definition checkProxyHealth ::
  "network \<Rightarrow> url_parser \<Rightarrow> UrlTransformer \<Rightarrow> world \<Rightarrow> string \<Rightarrow> TransformationRule
     \<Rightarrow> bool \<times> UrlTransformer \<times> world" where
  "checkProxyHealth requestUrl URL this w proxyBaseUrl rule =
     (if isCacheValid this w proxyBaseUrl then
        (case healthCache this proxyBaseUrl of
           Some cached \<Rightarrow> (healthy cached, this, w)
         | None \<Rightarrow> (False, this, w))
      else
        (let testTransformedUrl = applyTransformation URL TEST_URL rule;
             (healthy1, w1) = checkProxyHealthWithTimeout requestUrl this w testTransformedUrl;
             (healthy2, w2) =
               (if \<not> healthy1 then checkProxyHealthWithTimeout requestUrl this w1 proxyBaseUrl
                else (healthy1, w1));
             this' = this\<lparr>healthCache := (healthCache this)
                       (proxyBaseUrl \<mapsto> \<lparr>healthy = healthy2, lastChecked = now w2\<rparr>)\<rparr>
         in (healthy2, this', w2)))"

definition clearCache :: "UrlTransformer \<Rightarrow> UrlTransformer" where
  "clearCache this = this\<lparr>healthCache := Map.empty\<rparr>"

section \<open>Transformation engine (url-transformer.ts, lines 142 to 174)\<close>

text \<open>An optional field of the result object is \<open>None\<close> when the object lacks it.\<close>

record TransformationResult =
  transformedUrl :: "string option"
  originalUrl :: string
  appliedRule :: "string option"
  proxyHealthy :: bool
  error :: "string option"

definition unavailable_message :: "string \<Rightarrow> string" where
  "unavailable_message ruleName =
     ''Proxy service '' @ [CHR 0x22] @ ruleName @ [CHR 0x22] @ '' is currently unavailable''"

definition transformUrl ::
  "network \<Rightarrow> url_parser \<Rightarrow> UrlTransformer \<Rightarrow> world \<Rightarrow> string \<Rightarrow> TransformationRule list
     \<Rightarrow> TransformationResult \<times> UrlTransformer \<times> world" where
  "transformUrl requestUrl URL this w url rules =
     (case findMatchingRule URL url rules of
        None \<Rightarrow>
          (\<lparr>transformedUrl = Some url, originalUrl = url, appliedRule = None,
            proxyHealthy = True, error = None\<rparr>, this, w)
      | Some matchingRule \<Rightarrow>
          (let transformed = applyTransformation URL url matchingRule;
               proxyBaseUrl = extractProxyBaseUrl URL transformed;
               (isHealthy, this', w') =
                 checkProxyHealth requestUrl URL this w proxyBaseUrl matchingRule
           in if \<not> isHealthy then
                (\<lparr>transformedUrl = None, originalUrl = url,
                  appliedRule = Some (name matchingRule), proxyHealthy = False,
                  error = Some (unavailable_message (name matchingRule))\<rparr>, this', w')
              else
                (\<lparr>transformedUrl = Some transformed, originalUrl = url,
                  appliedRule = Some (name matchingRule), proxyHealthy = True,
                  error = None\<rparr>, this', w')))"

section \<open>Auto-processing of a note (\<open>MetadataLinkParser.autoProcessFileIfLonger\<close>)\<close>

text \<open>
  \<open>getFrontMatterInfo\<close> is the host's: for a note it says whether a front-matter block
  exists and gives three offsets into the text: \<open>from\<close> and \<open>to\<close>, the start and the
  end of the contents of the block (the delimiter lines excluded), and \<open>contentStart\<close>,
  the offset at which the block, closing delimiter included, ends.
\<close>

record FrontMatterInfo =
  fm_exists :: bool
  fm_from :: nat
  fm_to :: nat
  fm_contentStart :: nat

text \<open>
  \<open>s.trim()\<close> removes the white space and the line terminators at both ends. Of these
  the code units below 256 are tab, line feed, vertical tab, form feed, carriage return,
  space and no-break space.
\<close>

definition isWhiteSpace :: "char \<Rightarrow> bool" where
  "isWhiteSpace c =
     (c = CHR 0x09 \<or> c = CHR 0x0A \<or> c = CHR 0x0B \<or> c = CHR 0x0C \<or> c = CHR 0x0D
      \<or> c = CHR 0x20 \<or> c = CHR 0xA0)"

definition trim :: "string \<Rightarrow> string" where
  "trim s = rev (dropWhile isWhiteSpace (rev (dropWhile isWhiteSpace s)))"

text \<open>
  \<open>getBodyContentLength\<close>: with a front-matter block, the length of the trimmed text
  from \<open>to\<close> on; without one, the length of the trimmed note.
\<close>

definition getBodyContentLength :: "(string \<Rightarrow> FrontMatterInfo) \<Rightarrow> string \<Rightarrow> nat" where
  "getBodyContentLength getFrontMatterInfo fileContent =
     (let frontMatterInfo = getFrontMatterInfo fileContent
      in if fm_exists frontMatterInfo then
           length (trim (substring_from fileContent (fm_to frontMatterInfo)))
         else length (trim fileContent))"

text \<open>
  The quotient \<open>fetchedLength / existingBodyLength\<close> is a division of double-precision
  numbers: the double nearest to the exact quotient, a tie going to the even mantissa.
  Both lengths are integers below \<open>2^53\<close>, hence doubles themselves, and their quotient
  is far from underflow and overflow. \<open>double_div a b\<close> is that double as a real number:
  with \<open>e\<close> the binary exponent of \<open>a / b\<close> (\<open>2^e \<le> a / b < 2^(e + 1)\<close>), the quotient
  is scaled by \<open>2^(52 - e)\<close>, rounded to an integer of 53 bits and scaled back.
\<close>

function bits :: "nat \<Rightarrow> nat" where
  "bits n = (if n = 0 then 0 else Suc (bits (n div 2)))"
  by pat_completeness auto
termination
  by (relation "measure id") auto

declare bits.simps [simp del]

definition round_half_even :: "nat \<Rightarrow> nat \<Rightarrow> nat" where
  "round_half_even num den =
     (let q = num div den; r = num mod den
      in if 2 * r < den then q
         else if den < 2 * r then q + 1
         else if even q then q else q + 1)"

definition double_div :: "nat \<Rightarrow> nat \<Rightarrow> real" where
  "double_div a b =
     (if a = 0 then 0
      else
        (let d = int (bits a) - int (bits b);
             e = (if (if 0 \<le> d then b * 2 ^ nat d \<le> a else b \<le> a * 2 ^ nat (- d))
                  then d else d - 1);
             s = 52 - e
         in if 0 \<le> s then real (round_half_even (a * 2 ^ nat s) b) / 2 ^ nat s
            else real (round_half_even a (b * 2 ^ nat (- s))) * 2 ^ nat (- s)))"

text \<open>
  The \<open>ratio\<close> of the function. The threshold it is compared with is a real number, the
  value of the configured double.
\<close>

definition contentRatio :: "nat \<Rightarrow> nat \<Rightarrow> real" where
  "contentRatio existingBodyLength fetchedLength =
     (if existingBodyLength > 0 then double_div fetchedLength existingBodyLength
      else real fetchedLength)"

text \<open>
  The function talks to the vault, to the transformer and to the content fetcher. What
  they answer during one call is collected in a record:
  \<^item> \<open>isFileProcessed\<close>: whether the front matter holds \<open>article_processed: true\<close>
    (the helper catches its own errors and answers \<open>false\<close>);
  \<^item> \<open>vault_read\<close>: the text of the note, \<open>None\<close> when reading throws;
  \<^item> \<open>getFrontMatterInfo\<close>: the host's front-matter locator;
  \<^item> \<open>extractUrlFromFrontmatter\<close>, \<open>extractUrlFromContent\<close>: the two URL readers of
    that text, whose answers come from the host's YAML parser and regular expressions;
  \<^item> \<open>transformUrlIfNeeded\<close>: the projection of the engine's result;
  \<^item> \<open>getMarkdownContent\<close>: the fetched article, \<open>None\<close> for \<open>null\<close> (the fetcher
    catches its own errors);
  \<^item> \<open>vault_append_throws\<close>: whether \<open>vault.append\<close> throws.
  What the function does to the note is returned as a list of effects. The two
  front-matter writers catch their own errors.
\<close>

record transform_outcome =
  t_url :: "string option"
  t_originalUrl :: string
  t_appliedRule :: "string option"

record collaborators =
  isFileProcessed :: bool
  vault_read :: "string option"
  getFrontMatterInfo :: "string \<Rightarrow> FrontMatterInfo"
  extractUrlFromFrontmatter :: "string \<Rightarrow> string option"
  extractUrlFromContent :: "string \<Rightarrow> string option"
  transformUrlIfNeeded :: "string \<Rightarrow> transform_outcome"
  getMarkdownContent :: "string \<Rightarrow> string option"
  vault_append_throws :: bool

datatype vault_effect =
    UpdateFrontmatterWithProxyInfo string string string
  | Append string
  | MarkFileAsProcessed

text \<open>\<open>!s\<close> for \<open>s\<close> of type \<open>string | null\<close>: true for \<open>null\<close> and for the empty string.\<close>

definition falsy :: "string option \<Rightarrow> bool" where
  "falsy s = (case s of None \<Rightarrow> True | Some v \<Rightarrow> v = [])"

definition separator :: string where
  "separator = [CHR 0x0A, CHR 0x0A] @ ''---'' @ [CHR 0x0A, CHR 0x0A]
                 @ ''## Retrieved Article Content'' @ [CHR 0x0A, CHR 0x0A]"

definition autoProcessFileIfLonger :: "collaborators \<Rightarrow> real \<Rightarrow> bool \<times> vault_effect list" where
  "autoProcessFileIfLonger env minContentRatio =
     (if isFileProcessed env then (False, [])
      else case vault_read env of
        None \<Rightarrow> (False, [])
      | Some content \<Rightarrow>
         (let existingBodyLength = getBodyContentLength (getFrontMatterInfo env) content;
              url0 = extractUrlFromFrontmatter env content;
              url = (if falsy url0 then extractUrlFromContent env content else url0)
          in if falsy url then (False, [])
             else
              (let transformResult = transformUrlIfNeeded env (the url)
               in if falsy (t_url transformResult) then (False, [])
                  else
                   (let articleMarkdown =
                          getMarkdownContent env (the (t_url transformResult))
                    in if falsy articleMarkdown then (False, [])
                       else
                        (let fetchedLength = length (the articleMarkdown);
                             ratio = contentRatio existingBodyLength fetchedLength
                         in if ratio \<ge> minContentRatio then
                              (let proxyInfo =
                                     (if \<not> falsy (t_appliedRule transformResult) then
                                        [UpdateFrontmatterWithProxyInfo
                                           (t_originalUrl transformResult)
                                           (the (t_url transformResult))
                                           (the (t_appliedRule transformResult))]
                                      else [])
                               in if vault_append_throws env then (False, proxyInfo)
                                  else (True, proxyInfo
                                          @ [Append (separator @ the articleMarkdown),
                                             MarkFileAsProcessed]))
                            else (False, []))))))"

section \<open>Built-in rules (default-templates.ts)\<close>

definition getDefaultTransformationRules :: "TransformationRule list" where
  "getDefaultTransformationRules =
     [\<lparr>rule_id = ''freedium-medium'', name = ''Medium via Freedium'', enabled = False,
       matchers = [''*.medium.com'', ''medium.com''], transformationType = Prefix,
       template = ''https://freedium-mirror.cfd/{url}'', priority = 100\<rparr>,
      \<lparr>rule_id = ''12ft-ladder'', name = ''12ft Ladder (General Paywall Bypass)'',
       enabled = False, matchers = [''*''], transformationType = Prefix,
       template = ''https://12ft.io/{url}'', priority = 10\<rparr>,
      \<lparr>rule_id = ''archive-today'', name = ''Archive.today'', enabled = False,
       matchers = [''*''], transformationType = Prefix,
       template = ''https://archive.is/{url}'', priority = 20\<rparr>]"

section \<open>Sample data\<close>

text \<open>
  Concrete inputs on which the theorems below are run: the built-in rules with their
  toggles on, a list with two rules of equal priority behind a lower one, a rule whose
  template has no placeholder, a parser that knows four addresses (with the fields the
  platform's parser gives for them) and rejects everything else, three networks, and
  the answers of the collaborators during the auto-processing of one note.
\<close>

definition switched_on :: "TransformationRule list \<Rightarrow> TransformationRule list" where
  "switched_on rules = map (\<lambda>r. r\<lparr>enabled := True\<rparr>) rules"

definition tie_rules :: "TransformationRule list" where
  "tie_rules =
     [\<lparr>rule_id = ''low'', name = ''Low'', enabled = True, matchers = [''*''],
       transformationType = Prefix, template = ''https://low.example/{url}'', priority = 5\<rparr>,
      \<lparr>rule_id = ''first'', name = ''First'', enabled = True, matchers = [''*''],
       transformationType = Prefix, template = ''https://first.example/{url}'', priority = 10\<rparr>,
      \<lparr>rule_id = ''second'', name = ''Second'', enabled = True, matchers = [''*''],
       transformationType = Prefix, template = ''https://second.example/{url}'', priority = 10\<rparr>]"

definition fixed_rule :: TransformationRule where
  "fixed_rule = \<lparr>rule_id = ''fixed'', name = ''Fixed page'', enabled = True, matchers = [''*''],
       transformationType = Prefix, template = ''https://low.example/'', priority = 1\<rparr>"

definition plain_rule :: TransformationRule where
  "plain_rule = \<lparr>rule_id = ''p'', name = ''P'', enabled = True, matchers = [''*''],
       transformationType = Prefix, template = ''https://p/{url}'', priority = 1\<rparr>"

definition article_url :: string where
  "article_url = ''https://blog.medium.com/p/1?x=2''"

definition sample_parser :: url_parser where
  "sample_parser s =
     (if s = ''https://blog.medium.com/p/1?x=2'' then
        Some \<lparr>protocol = ''https:'', hostname = ''blog.medium.com'', pathname = ''/p/1'',
              search = ''?x=2'', hash = ''''\<rparr>
      else if s = ''https://freedium-mirror.cfd/https://blog.medium.com/p/1?x=2'' then
        Some \<lparr>protocol = ''https:'', hostname = ''freedium-mirror.cfd'',
              pathname = ''/https://blog.medium.com/p/1'', search = ''?x=2'', hash = ''''\<rparr>
      else if s = ''https://evilmedium.com/'' then
        Some \<lparr>protocol = ''https:'', hostname = ''evilmedium.com'', pathname = ''/'',
              search = '''', hash = ''''\<rparr>
      else if s = ''https://x.com/a/b?c=1'' then
        Some \<lparr>protocol = ''https:'', hostname = ''x.com'', pathname = ''/a/b'',
              search = ''?c=1'', hash = ''''\<rparr>
      else None)"

definition healthy_network :: network where
  "healthy_network t url = \<lparr>delay = 120, outcome = Status 200\<rparr>"

definition down_network :: network where
  "down_network t url = \<lparr>delay = 30, outcome = Throws\<rparr>"

definition slow_network :: network where
  "slow_network t url = \<lparr>delay = 10000, outcome = Status 200\<rparr>"

definition start :: world where
  "start = \<lparr>now = 1000, requests = []\<rparr>"

text \<open>
  Two notes that consist of a front-matter block only, the second one carrying the
  processed marker, and the host's answers for them: \<open>to\<close> is the offset at which the
  closing delimiter line starts and \<open>contentStart\<close> the offset after that line, which
  here is the end of the note.
\<close>

definition stub_note :: string where
  "stub_note = ''---'' @ [CHR 0x0A] @ ''url: https://x.com/a/b?c=1'' @ [CHR 0x0A]
                 @ ''---'' @ [CHR 0x0A]"

definition marked_note :: string where
  "marked_note = ''---'' @ [CHR 0x0A] @ ''url: https://x.com/a/b?c=1'' @ [CHR 0x0A]
                   @ ''article_processed: true'' @ [CHR 0x0A] @ ''---'' @ [CHR 0x0A]"

definition sample_front_matter :: "string \<Rightarrow> FrontMatterInfo" where
  "sample_front_matter note =
     (if note = stub_note then
        \<lparr>fm_exists = True, fm_from = 4, fm_to = 31, fm_contentStart = 35\<rparr>
      else if note = marked_note then
        \<lparr>fm_exists = True, fm_from = 4, fm_to = 55, fm_contentStart = 59\<rparr>
      else \<lparr>fm_exists = False, fm_from = 0, fm_to = 0, fm_contentStart = 0\<rparr>)"

definition sample_env :: "bool \<Rightarrow> string \<Rightarrow> string \<Rightarrow> collaborators" where
  "sample_env processed note article =
     \<lparr>isFileProcessed = processed, vault_read = Some note,
      getFrontMatterInfo = sample_front_matter,
      extractUrlFromFrontmatter =
        (\<lambda>content. if content = stub_note \<or> content = marked_note
                    then Some ''https://x.com/a/b?c=1'' else None),
      extractUrlFromContent =
        (\<lambda>content. if content = stub_note \<or> content = marked_note
                    then Some ''https://x.com/a/b?c=1'' else None),
      transformUrlIfNeeded =
        (\<lambda>url. \<lparr>t_url = Some url, t_originalUrl = url, t_appliedRule = None\<rparr>),
      getMarkdownContent = (\<lambda>url. Some article),
      vault_append_throws = False\<rparr>"

section \<open>Properties of the matcher\<close>

lemma matchesPattern_malformed: "URL url = None \<Longrightarrow> \<not> matchesPattern URL url pattern"
  by (simp add: matchesPattern_def)

lemma matchesPattern_star: "URL url = Some u \<Longrightarrow> matchesPattern URL url ''*''"
  by (simp add: matchesPattern_def)

lemma matchesPattern_exact:
  "URL url = Some u \<Longrightarrow> pattern \<noteq> ''*'' \<Longrightarrow> \<not> prefix ''*.'' pattern \<Longrightarrow>
     matchesPattern URL url pattern = (hostname u = pattern)"
  by (simp add: matchesPattern_def startsWith_def)

lemma matchesPattern_wildcard:
  "URL url = Some u \<Longrightarrow>
     matchesPattern URL url (''*.'' @ x) = (hostname u = x \<or> suffix (''.'' @ x) (hostname u))"
  by (simp add: matchesPattern_def startsWith_def endsWith_def substring_from_def)

lemma suffix_dot_glued:
  assumes "w \<noteq> []" and "last w \<noteq> CHR ''.''"
  shows "w @ x \<noteq> x" and "\<not> suffix (''.'' @ x) (w @ x)"
proof -
  show "w @ x \<noteq> x" using assms(1) by simp
  obtain v c where w: "w = v @ [c]" using assms(1) by (cases w rule: rev_cases) auto
  then have c: "c \<noteq> CHR ''.''" using assms(2) by simp
  show "\<not> suffix (''.'' @ x) (w @ x)"
  proof
    assume "suffix (''.'' @ x) (w @ x)"
    then have "suffix (CHR ''.'' # x) (v @ c # x)" using w by simp
    then obtain zs where "v @ c # x = zs @ CHR ''.'' # x" by (auto simp: suffix_def)
    then have "(v @ [c]) @ x = (zs @ ''.'') @ x" by simp
    then have "v @ [c] = zs @ ''.''" by (simp only: same_append_eq append_same_eq)
    then show False using c by simp
  qed
qed

text \<open>
  Claim C8. For a URL the parser accepts and a pattern \<open>*.x\<close>, \<open>matchesPattern\<close> is true
  exactly when the hostname is \<open>x\<close> or ends with \<open>.x\<close>: the hostname \<open>x\<close> and every
  \<open>sub.x\<close> match, while a hostname that glues a non-empty word not ending in a dot in
  front of \<open>x\<close> (\<open>evilx\<close>, \<open>notx\<close>) does not. For a URL the parser rejects, every
  pattern (also \<open>*\<close>) gives \<open>false\<close>; the model has no exceptional outcome, the
  \<open>catch\<close> being the \<open>None\<close> branch.
\<close>

theorem matchesPattern_subdomain_wildcard:
  "(URL url = Some u \<longrightarrow>
      matchesPattern URL url (''*.'' @ x) = (hostname u = x \<or> suffix (''.'' @ x) (hostname u))
      \<and> (hostname u = x \<longrightarrow> matchesPattern URL url (''*.'' @ x))
      \<and> (hostname u = sub @ ''.'' @ x \<longrightarrow> matchesPattern URL url (''*.'' @ x))
      \<and> (hostname u = ''evil'' @ x \<longrightarrow> \<not> matchesPattern URL url (''*.'' @ x))
      \<and> (hostname u = ''not'' @ x \<longrightarrow> \<not> matchesPattern URL url (''*.'' @ x))
      \<and> (w \<noteq> [] \<and> last w \<noteq> CHR ''.'' \<and> hostname u = w @ x \<longrightarrow>
            \<not> matchesPattern URL url (''*.'' @ x)))
   \<and> (URL url = None \<longrightarrow> \<not> matchesPattern URL url pattern)"
proof (intro conjI impI)
  assume u: "URL url = Some u"
  note m = matchesPattern_wildcard [of URL url u x, OF u]
  show "matchesPattern URL url (''*.'' @ x) = (hostname u = x \<or> suffix (''.'' @ x) (hostname u))"
    by (rule m)
  show "matchesPattern URL url (''*.'' @ x)" if "hostname u = x"
    using that m by simp
  show "matchesPattern URL url (''*.'' @ x)" if "hostname u = sub @ ''.'' @ x"
    using that m by (simp add: suffix_def)
  show "\<not> matchesPattern URL url (''*.'' @ x)" if "hostname u = ''evil'' @ x"
    using that m suffix_dot_glued [of "''evil''" x] by simp
  show "\<not> matchesPattern URL url (''*.'' @ x)" if "hostname u = ''not'' @ x"
    using that m suffix_dot_glued [of "''not''" x] by simp
  show "\<not> matchesPattern URL url (''*.'' @ x)"
    if "w \<noteq> [] \<and> last w \<noteq> CHR ''.'' \<and> hostname u = w @ x"
    using that m suffix_dot_glued [of w x] by simp
next
  assume "URL url = None"
  then show "\<not> matchesPattern URL url pattern" by (rule matchesPattern_malformed)
qed

theorem matchesPattern_subdomain_wildcard_witness:
  "sample_parser article_url
     = Some \<lparr>protocol = ''https:'', hostname = ''blog.medium.com'', pathname = ''/p/1'',
              search = ''?x=2'', hash = ''''\<rparr>
   \<and> matchesPattern sample_parser article_url ''*.medium.com''
   \<and> \<not> matchesPattern sample_parser ''https://evilmedium.com/'' ''*.medium.com''
   \<and> sample_parser ''not a url'' = None
   \<and> \<not> matchesPattern sample_parser ''not a url'' ''*''"
  using matchesPattern_subdomain_wildcard
    [of sample_parser article_url
        "\<lparr>protocol = ''https:'', hostname = ''blog.medium.com'', pathname = ''/p/1'',
              search = ''?x=2'', hash = ''''\<rparr>"
        "''medium.com''" "''blog''" "''blog.''" "''*''"]
    matchesPattern_subdomain_wildcard
    [of sample_parser "''https://evilmedium.com/''"
        "\<lparr>protocol = ''https:'', hostname = ''evilmedium.com'', pathname = ''/'',
              search = '''', hash = ''''\<rparr>"
        "''medium.com''" "''blog''" "''evil''" "''*''"]
    matchesPattern_subdomain_wildcard
    [of sample_parser "''not a url''" undefined "''medium.com''" "''blog''" "''blog.''" "''*''"]
  by (simp add: sample_parser_def article_url_def suffix_to_prefix)

section \<open>Properties of rule resolution\<close>

text \<open>The sort of the model is the stable descending sort by priority.\<close>

lemma set_sort_insert: "set (sort_insert cmp x ys) = insert x (set ys)"
  by (induction ys) auto

lemma set_array_sort: "set (array_sort cmp xs) = set xs"
  by (induction xs) (auto simp: set_sort_insert)

lemma length_sort_insert: "length (sort_insert cmp x ys) = Suc (length ys)"
  by (induction ys) auto

lemma length_array_sort: "length (array_sort cmp xs) = length xs"
  by (induction xs) (auto simp: length_sort_insert)

lemma descending_sort_insert:
  fixes ys :: "TransformationRule list"
  shows "sorted_wrt (\<lambda>a b. priority b \<le> priority a) ys \<Longrightarrow>
     sorted_wrt (\<lambda>a b. priority b \<le> priority a)
       (sort_insert (\<lambda>a b. priority b - priority a) x ys)"
  by (induction ys) (auto simp: set_sort_insert)

lemma descending_array_sort:
  fixes xs :: "TransformationRule list"
  shows "sorted_wrt (\<lambda>a b. priority b \<le> priority a)
     (array_sort (\<lambda>a b. priority b - priority a) xs)"
  by (induction xs) (auto simp: descending_sort_insert)

lemma stable_sort_insert:
  fixes ys :: "TransformationRule list"
  shows "filter (\<lambda>r. priority r = p) (sort_insert (\<lambda>a b. priority b - priority a) x ys)
     = filter (\<lambda>r. priority r = p) (x # ys)"
  by (induction ys) auto

lemma stable_array_sort:
  fixes xs :: "TransformationRule list"
  shows "filter (\<lambda>r. priority r = p) (array_sort (\<lambda>a b. priority b - priority a) xs)
     = filter (\<lambda>r. priority r = p) xs"
  by (induction xs) (auto simp: stable_sort_insert)

lemma array_sort_Nil_iff: "array_sort cmp xs = [] \<longleftrightarrow> xs = []"
proof (cases xs)
  case Nil
  then show ?thesis by simp
next
  case (Cons x ys)
  have "sort_insert cmp x zs \<noteq> []" for zs by (cases zs) auto
  then show ?thesis using Cons by simp
qed

lemma hd_sort_insert:
  "hd (sort_insert cmp x ys) = (if ys = [] \<or> cmp x (hd ys) \<le> 0 then x else hd ys)"
  by (cases ys) auto

text \<open>
  The head of the sorted list of applicable rules, located in the input list: every
  applicable rule before it has a strictly lower priority, every applicable rule after
  it has at most its priority.
\<close>

lemma first_of_sorted:
  fixes rules :: "TransformationRule list"
  assumes "filter P rules \<noteq> []"
  shows "\<exists>pre r post. rules = pre @ r # post
           \<and> hd (array_sort (\<lambda>a b. priority b - priority a) (filter P rules)) = r
           \<and> P r
           \<and> (\<forall>q\<in>set pre. P q \<longrightarrow> priority q < priority r)
           \<and> (\<forall>q\<in>set post. P q \<longrightarrow> priority q \<le> priority r)"
  using assms
proof (induction rules)
  case Nil
  then show ?case by simp
next
  case (Cons x xs)
  let ?cmp = "\<lambda>a b. priority b - priority (a::TransformationRule)"
  show ?case
  proof (cases "P x")
    case False
    with Cons.prems have "filter P xs \<noteq> []" by simp
    from Cons.IH [OF this] obtain pre r post where
      *: "xs = pre @ r # post" "hd (array_sort ?cmp (filter P xs)) = r" "P r"
         "\<forall>q\<in>set pre. P q \<longrightarrow> priority q < priority r"
         "\<forall>q\<in>set post. P q \<longrightarrow> priority q \<le> priority r"
      by blast
    have "x # xs = (x # pre) @ r # post \<and> hd (array_sort ?cmp (filter P (x # xs))) = r \<and> P r
                 \<and> (\<forall>q\<in>set (x # pre). P q \<longrightarrow> priority q < priority r)
                 \<and> (\<forall>q\<in>set post. P q \<longrightarrow> priority q \<le> priority r)"
      using * False by simp
    then show ?thesis by blast
  next
    case True
    show ?thesis
    proof (cases "filter P xs = []")
      case empty: True
      then have "\<forall>q\<in>set xs. \<not> P q" by (simp add: filter_empty_conv)
      then have "x # xs = [] @ x # xs \<and> hd (array_sort ?cmp (filter P (x # xs))) = x \<and> P x
                 \<and> (\<forall>q\<in>set []. P q \<longrightarrow> priority q < priority x)
                 \<and> (\<forall>q\<in>set xs. P q \<longrightarrow> priority q \<le> priority x)"
        using True empty by simp
      then show ?thesis by blast
    next
      case nonempty: False
      from Cons.IH [OF this] obtain pre r post where
        *: "xs = pre @ r # post" "hd (array_sort ?cmp (filter P xs)) = r" "P r"
           "\<forall>q\<in>set pre. P q \<longrightarrow> priority q < priority r"
           "\<forall>q\<in>set post. P q \<longrightarrow> priority q \<le> priority r"
        by blast
      have ne: "array_sort ?cmp (filter P xs) \<noteq> []"
        using nonempty by (simp add: array_sort_Nil_iff)
      have hd_eq: "hd (array_sort ?cmp (filter P (x # xs)))
                     = (if priority r \<le> priority x then x else r)"
        using True ne *(2) by (simp add: hd_sort_insert)
      show ?thesis
      proof (cases "priority r \<le> priority x")
        case le: True
        have "\<forall>q\<in>set xs. P q \<longrightarrow> priority q \<le> priority x"
          using * le by fastforce
        then have "x # xs = [] @ x # xs \<and> hd (array_sort ?cmp (filter P (x # xs))) = x \<and> P x
                 \<and> (\<forall>q\<in>set []. P q \<longrightarrow> priority q < priority x)
                 \<and> (\<forall>q\<in>set xs. P q \<longrightarrow> priority q \<le> priority x)"
          using True hd_eq le by simp
        then show ?thesis by blast
      next
        case gt: False
        have "x # xs = (x # pre) @ r # post \<and> hd (array_sort ?cmp (filter P (x # xs))) = r \<and> P r
                 \<and> (\<forall>q\<in>set (x # pre). P q \<longrightarrow> priority q < priority r)
                 \<and> (\<forall>q\<in>set post. P q \<longrightarrow> priority q \<le> priority r)"
          using * hd_eq gt by simp
        then show ?thesis by blast
      qed
    qed
  qed
qed

lemma findMatchingRule_hd:
  "findMatchingRule URL url rules =
     (if filter (matchesRule URL url) rules = [] then None
      else Some (hd (array_sort (\<lambda>a b. priority b - priority a)
                       (filter (matchesRule URL url) rules))))"
  by (auto simp: findMatchingRule_def Let_def array_sort_Nil_iff split: list.splits)

lemma findMatchingRule_None:
  "\<forall>r\<in>set rules. \<not> matchesRule URL url r \<Longrightarrow> findMatchingRule URL url rules = None"
  by (simp add: findMatchingRule_def filter_empty_conv)

text \<open>
  Claim C2. \<open>findMatchingRule\<close> is a function of the URL and of the rule list alone (it
  reads neither the cache nor the clock, and it sorts a filtered copy, not its
  argument), so repeated calls on the same list give the same answer. If no rule of
  the list is applicable the answer is none. Otherwise the answer is a rule \<open>r\<close> at a
  position of the list such that \<open>r\<close> is applicable, every applicable rule is at most
  as high in priority, and every applicable rule before that position is strictly
  lower: \<open>r\<close> is the first rule, in input order, among the applicable rules of highest
  priority.
\<close>

theorem findMatchingRule_highest_priority_first:
  "((\<forall>r\<in>set rules. \<not> matchesRule URL url r) \<longrightarrow> findMatchingRule URL url rules = None)
   \<and> ((\<exists>r\<in>set rules. matchesRule URL url r) \<longrightarrow>
        (\<exists>pre r post. rules = pre @ r # post
           \<and> findMatchingRule URL url rules = Some r
           \<and> matchesRule URL url r
           \<and> (\<forall>q\<in>set pre. matchesRule URL url q \<longrightarrow> priority q < priority r)
           \<and> (\<forall>q\<in>set post. matchesRule URL url q \<longrightarrow> priority q \<le> priority r)))"
proof (intro conjI impI)
  assume "\<forall>r\<in>set rules. \<not> matchesRule URL url r"
  then show "findMatchingRule URL url rules = None" by (rule findMatchingRule_None)
next
  assume "\<exists>r\<in>set rules. matchesRule URL url r"
  then have ne: "filter (matchesRule URL url) rules \<noteq> []" by (simp add: filter_empty_conv)
  from first_of_sorted [OF ne] ne
  show "\<exists>pre r post. rules = pre @ r # post
           \<and> findMatchingRule URL url rules = Some r
           \<and> matchesRule URL url r
           \<and> (\<forall>q\<in>set pre. matchesRule URL url q \<longrightarrow> priority q < priority r)
           \<and> (\<forall>q\<in>set post. matchesRule URL url q \<longrightarrow> priority q \<le> priority r)"
    by (simp add: findMatchingRule_hd)
qed

theorem findMatchingRule_highest_priority_first_witness:
  "(\<exists>r\<in>set tie_rules. matchesRule sample_parser article_url r)
   \<and> findMatchingRule sample_parser article_url tie_rules = Some (tie_rules ! 1)
   \<and> \<not> (\<exists>r\<in>set getDefaultTransformationRules. matchesRule sample_parser article_url r)
   \<and> findMatchingRule sample_parser article_url getDefaultTransformationRules = None"
proof -
  have some: "\<exists>r\<in>set tie_rules. matchesRule sample_parser article_url r"
    by (simp add: matchesRule_def matchesPattern_def sample_parser_def article_url_def
        tie_rules_def)
  have none: "\<forall>r\<in>set getDefaultTransformationRules. \<not> matchesRule sample_parser article_url r"
    by (simp add: matchesRule_def getDefaultTransformationRules_def)
  from findMatchingRule_highest_priority_first [of tie_rules sample_parser article_url] some
  obtain pre r post where
    r: "tie_rules = pre @ r # post" "findMatchingRule sample_parser article_url tie_rules = Some r"
    by blast
  have "findMatchingRule sample_parser article_url tie_rules = Some (tie_rules ! 1)"
    by (simp add: findMatchingRule_def matchesRule_def matchesPattern_def sample_parser_def
        article_url_def tie_rules_def)
  moreover from findMatchingRule_highest_priority_first
         [of getDefaultTransformationRules sample_parser article_url] none
  have "findMatchingRule sample_parser article_url getDefaultTransformationRules = None"
    by blast
  ultimately show ?thesis using some none by blast
qed

section \<open>Properties of the template expander\<close>

lemma indexOf_None_iff: "indexOf s p = None \<longleftrightarrow> \<not> sublist p s"
  by (induction s) (auto simp: sublist_Cons_right)

lemma indexOf_Some:
  "indexOf s p = Some n \<Longrightarrow> s = take n s @ p @ drop (n + length p) s"
proof (induction s arbitrary: n)
  case Nil
  then show ?case by (simp split: if_splits)
next
  case (Cons c cs)
  show ?case
  proof (cases "prefix p (c # cs)")
    case True
    then have "n = 0" using Cons.prems by simp
    with True show ?thesis by (auto simp: prefix_def)
  next
    case False
    then obtain m where m: "indexOf cs p = Some m" "n = Suc m" using Cons.prems by auto
    from Cons.IH [OF m(1)] m(2) show ?thesis by simp
  qed
qed

lemma indexOf_first:
  "indexOf s p = Some n \<Longrightarrow> m < n \<Longrightarrow> \<not> prefix p (drop m s)"
proof (induction s arbitrary: n m)
  case Nil
  then show ?case by (simp split: if_splits)
next
  case (Cons c cs)
  have np: "\<not> prefix p (c # cs)" using Cons.prems by (auto split: if_splits)
  then obtain k where k: "indexOf cs p = Some k" "n = Suc k" using Cons.prems by auto
  show ?case
  proof (cases m)
    case 0
    then show ?thesis using np by simp
  next
    case (Suc j)
    then have "j < k" using Cons.prems k by simp
    from Cons.IH [OF k(1) this] Suc show ?thesis by simp
  qed
qed

lemma string_replace_absent: "\<not> sublist p s \<Longrightarrow> string_replace s p r = s"
  by (simp add: string_replace_def indexOf_None_iff [symmetric])

lemma getSubstitution_no_dollar:
  "CHR ''$'' \<notin> set r \<Longrightarrow> getSubstitution m s p r = r"
  by (induction m s p r rule: getSubstitution.induct) auto

lemma string_replace_plain:
  "indexOf s p = Some n \<Longrightarrow> CHR ''$'' \<notin> set r
     \<Longrightarrow> string_replace s p r = take n s @ r @ drop (n + length p) s"
  by (simp add: string_replace_def getSubstitution_no_dollar)

text \<open>
  A URL without a dollar sign is put, as it is, in the place of the first \<open>{url}\<close> of
  a prefix template.
\<close>

lemma applyTransformation_prefix_plain:
  assumes "transformationType rule = Prefix"
      and "indexOf (template rule) ''{url}'' = Some n" and "CHR ''$'' \<notin> set url"
  shows "applyTransformation URL url rule
           = take n (template rule) @ url @ drop (n + length ''{url}'') (template rule)"
  using assms by (simp add: applyTransformation_def string_replace_plain)

lemma applyTransformation_parse_failure:
  "transformationType rule = PathExtraction \<Longrightarrow> URL url = None \<Longrightarrow>
     applyTransformation URL url rule = string_replace (template rule) ''{url}'' url"
  by (simp add: applyTransformation_def)

lemma applyTransformation_prefix_example:
  "applyTransformation URL ''https://x.com/a?b=1'' plain_rule = ''https://p/https://x.com/a?b=1''"
  by (simp add: applyTransformation_def string_replace_def plain_rule_def)

text \<open>
  The platform's parser gives a path that starts with a slash, so \<open>{domain}{path}\<close>
  expands to \<open>x.com/a/b?c=1\<close>.
\<close>

lemma applyTransformation_path_extraction_example:
  "applyTransformation sample_parser ''https://x.com/a/b?c=1''
     (plain_rule\<lparr>transformationType := PathExtraction, template := ''https://p/{domain}{path}''\<rparr>)
   = ''https://p/x.com/a/b?c=1''"
  by (simp add: applyTransformation_def string_replace_def sample_parser_def plain_rule_def)

text \<open>
  The three replacements of a path-extraction rule run one after the other, each on the
  result of the one before: a \<open>{domain}\<close> that arrives with the URL is found before
  the one of the template.
\<close>

lemma applyTransformation_placeholder_in_url:
  assumes "URL ''https://x.com/{domain}''
             = Some \<lparr>protocol = ''https:'', hostname = ''x.com'', pathname = ''/%7Bdomain%7D'',
                     search = '''', hash = ''''\<rparr>"
  shows "applyTransformation URL ''https://x.com/{domain}''
     (plain_rule\<lparr>transformationType := PathExtraction, template := ''https://p/{url}?d={domain}''\<rparr>)
   = ''https://p/https://x.com/x.com?d={domain}''"
  using assms by (simp add: applyTransformation_def string_replace_def plain_rule_def)

text \<open>
  Claim C9 (the code departs from it). \<open>applyTransformation\<close> is a total function of the
  URL and the rule, and a parse failure in the path-extraction branch gives the prefix
  expansion. But the URL is handed to \<open>replace\<close> as a replacement pattern, not as a
  literal text: for the prefix rule with template \<open>https://p/{url}\<close> and the URL
  \<open>https://x.com/?a=$&b\<close>, the pair \<open>$&\<close> of the URL is expanded to the matched text
  \<open>{url}\<close>, and the result is not the template with the raw URL in the place of the
  placeholder.
\<close>

theorem applyTransformation_dollar_pattern:
  "applyTransformation URL ''https://x.com/?a=$&b'' plain_rule
     = ''https://p/https://x.com/?a={url}b''
   \<and> applyTransformation URL ''https://x.com/?a=$&b'' plain_rule
     \<noteq> ''https://p/'' @ ''https://x.com/?a=$&b''"
  by (simp add: applyTransformation_def string_replace_def plain_rule_def)

text \<open>
  Claim C10. For a prefix rule whose template does not contain \<open>{url}\<close>,
  \<open>applyTransformation\<close> returns the template unchanged, whatever the URL is: the URL
  does not occur in the result.
\<close>

theorem applyTransformation_prefix_without_placeholder:
  "transformationType rule = Prefix \<Longrightarrow> \<not> sublist ''{url}'' (template rule)
     \<Longrightarrow> applyTransformation URL url rule = template rule"
  by (simp add: applyTransformation_def string_replace_absent)

theorem applyTransformation_prefix_without_placeholder_witness:
  "transformationType fixed_rule = Prefix
   \<and> \<not> sublist ''{url}'' (template fixed_rule)
   \<and> applyTransformation sample_parser article_url fixed_rule = ''https://low.example/''"
proof -
  have t: "transformationType fixed_rule = Prefix"
    by (simp add: fixed_rule_def)
  have a: "\<not> sublist ''{url}'' (template fixed_rule)"
    by (simp add: fixed_rule_def sublist_Cons_right)
  from applyTransformation_prefix_without_placeholder [OF t a, of sample_parser article_url] t a
  show ?thesis by (simp add: fixed_rule_def)
qed

section \<open>Properties of the health cache and checker\<close>

lemma isCacheValid_entry:
  "isCacheValid this w k \<Longrightarrow> \<exists>c. healthCache this k = Some c"
  by (auto simp: isCacheValid_def split: option.splits)

lemma checkProxyHealth_hit:
  "isCacheValid this w k \<Longrightarrow>
     checkProxyHealth requestUrl URL this w k rule = (healthy (the (healthCache this k)), this, w)"
  by (auto simp: checkProxyHealth_def dest: isCacheValid_entry)

lemma probe_world:
  "checkProxyHealthWithTimeout requestUrl this w url = (h, w') \<Longrightarrow>
     requests w' = requests w @ [url] \<and> now w \<le> now w'"
  by (auto simp: checkProxyHealthWithTimeout_def Let_def split: outcome.splits)

text \<open>
  A request that throws, or that answers with a status outside \<open>[200, 400)\<close>, makes the
  probe return \<open>false\<close>; the probe has no other outcome than a boolean.
\<close>

lemma probe_failure:
  "outcome (requestUrl (now w) url) = Throws
     \<or> (\<exists>s. outcome (requestUrl (now w) url) = Status s \<and> \<not> (200 \<le> s \<and> s < 400))
   \<Longrightarrow> \<not> fst (checkProxyHealthWithTimeout requestUrl this w url)"
  by (auto simp: checkProxyHealthWithTimeout_def Let_def split: outcome.splits)

text \<open>
  On a miss, the boolean that is returned is stored under the origin with the time at
  which the last request settled, and one or two requests have been made.
\<close>

lemma checkProxyHealth_miss:
  assumes "\<not> isCacheValid this w k"
      and "checkProxyHealth requestUrl URL this w k rule = (h, this', w')"
  shows "this' = this\<lparr>healthCache := (healthCache this)(k \<mapsto> \<lparr>healthy = h, lastChecked = now w'\<rparr>)\<rparr>"
    and "\<exists>rs. requests w' = requests w @ rs \<and> 1 \<le> length rs \<and> length rs \<le> 2"
    and "now w \<le> now w'"
  using assms
  by (auto simp: checkProxyHealth_def Let_def split: prod.splits if_splits dest!: probe_world)

lemma checkProxyHealth_entry:
  assumes "checkProxyHealth requestUrl URL this w k rule = (h, this', w')"
  shows "\<exists>e. healthCache this' k = Some e \<and> healthy e = h"
proof (cases "isCacheValid this w k")
  case True
  then show ?thesis using assms isCacheValid_entry [OF True]
    by (auto simp: checkProxyHealth_hit)
next
  case False
  from checkProxyHealth_miss(1) [OF False assms] show ?thesis by simp
qed

lemma checkProxyHealth_requests:
  assumes "checkProxyHealth requestUrl URL this w k rule = (h, this', w')"
  shows "\<exists>rs. requests w' = requests w @ rs \<and> length rs \<le> 2"
proof (cases "isCacheValid this w k")
  case True
  then show ?thesis using assms by (auto simp: checkProxyHealth_hit)
next
  case False
  from checkProxyHealth_miss(2) [OF False assms] show ?thesis by auto
qed

lemma freedium_healthy:
  "checkProxyHealth healthy_network sample_parser (new_UrlTransformer 5 5000) start
      ''https://freedium-mirror.cfd'' (switched_on getDefaultTransformationRules ! 0)
   = (True,
      \<lparr>healthCache = [''https://freedium-mirror.cfd'' \<mapsto> \<lparr>healthy = True, lastChecked = 1120\<rparr>],
       cacheTtlMs = 300000, timeoutMs = 5000\<rparr>,
      \<lparr>now = 1120, requests = [''https://freedium-mirror.cfd/https://example.com/test'']\<rparr>)"
  by (simp add: checkProxyHealth_def isCacheValid_def new_UrlTransformer_def start_def
      checkProxyHealthWithTimeout_def healthy_network_def applyTransformation_def
      string_replace_def TEST_URL_def getDefaultTransformationRules_def switched_on_def)

lemma freedium_down:
  "checkProxyHealth down_network sample_parser (new_UrlTransformer 5 5000) start
      ''https://freedium-mirror.cfd'' (switched_on getDefaultTransformationRules ! 0)
   = (False,
      \<lparr>healthCache = [''https://freedium-mirror.cfd'' \<mapsto> \<lparr>healthy = False, lastChecked = 1060\<rparr>],
       cacheTtlMs = 300000, timeoutMs = 5000\<rparr>,
      \<lparr>now = 1060, requests = [''https://freedium-mirror.cfd/https://example.com/test'',
                                ''https://freedium-mirror.cfd'']\<rparr>)"
  by (simp add: checkProxyHealth_def isCacheValid_def new_UrlTransformer_def start_def
      checkProxyHealthWithTimeout_def down_network_def applyTransformation_def
      string_replace_def TEST_URL_def getDefaultTransformationRules_def switched_on_def)

text \<open>
  After a call that probed, a call that starts less than the time-to-live after the
  start of that call is answered from the cache: the entry is stamped when the probing
  ends, which is not before it starts.
\<close>

lemma checkProxyHealth_after_probe:
  assumes miss: "\<not> isCacheValid this w origin"
      and first: "checkProxyHealth requestUrl URL this w origin rule = (h, this', w')"
      and within: "t - now w < cacheTtlMs this"
  shows "checkProxyHealth requestUrl2 URL2 this' (w'\<lparr>now := t\<rparr>) origin rule2
           = (h, this', w'\<lparr>now := t\<rparr>)"
proof -
  note facts = checkProxyHealth_miss [OF miss first]
  have "isCacheValid this' (w'\<lparr>now := t\<rparr>) origin"
    using facts(1,3) within by (simp add: isCacheValid_def)
  from checkProxyHealth_hit [OF this] facts(1) show ?thesis by simp
qed

text \<open>
  Claim C3. Take any call of \<open>checkProxyHealth\<close> for an origin, and a second call for
  the same origin that starts in the state the first one left, at a time \<open>t\<close> less than
  the time-to-live after the timestamp of the origin's entry. Whatever the network
  would answer and whatever rule is passed, the second call returns the boolean the
  first call returned, which is the one in the cache, and leaves the cache, the clock and
  the list of requests as they were: it is a cache read without network activity.
  So of the two calls only the first can probe (one request, and one retry against the
  bare origin when that fails).
\<close>

theorem checkProxyHealth_second_call_cached:
  assumes first: "checkProxyHealth requestUrl URL this w origin rule = (h, this', w')"
      and within: "t - lastChecked (the (healthCache this' origin)) < cacheTtlMs this'"
  shows "checkProxyHealth requestUrl2 URL2 this' (w'\<lparr>now := t\<rparr>) origin rule2
           = (h, this', w'\<lparr>now := t\<rparr>)
         \<and> requests (snd (snd (checkProxyHealth requestUrl2 URL2 this' (w'\<lparr>now := t\<rparr>)
                                origin rule2))) = requests w'
         \<and> (\<exists>e. healthCache this' origin = Some e \<and> healthy e = h)"
proof -
  from checkProxyHealth_entry [OF first] obtain e where
    e: "healthCache this' origin = Some e" "healthy e = h" by blast
  have valid: "isCacheValid this' (w'\<lparr>now := t\<rparr>) origin"
    using e within by (simp add: isCacheValid_def)
  show ?thesis using checkProxyHealth_hit [OF valid] e by simp
qed

theorem checkProxyHealth_second_call_cached_witness:
  "checkProxyHealth healthy_network sample_parser (new_UrlTransformer 5 5000) start
      ''https://freedium-mirror.cfd'' (switched_on getDefaultTransformationRules ! 0)
   = (True,
      \<lparr>healthCache = [''https://freedium-mirror.cfd'' \<mapsto> \<lparr>healthy = True, lastChecked = 1120\<rparr>],
       cacheTtlMs = 300000, timeoutMs = 5000\<rparr>,
      \<lparr>now = 1120, requests = [''https://freedium-mirror.cfd/https://example.com/test'']\<rparr>)
   \<and> (2000::int) - 1120 < 300000
   \<and> checkProxyHealth down_network sample_parser
        \<lparr>healthCache = [''https://freedium-mirror.cfd'' \<mapsto> \<lparr>healthy = True, lastChecked = 1120\<rparr>],
         cacheTtlMs = 300000, timeoutMs = 5000\<rparr>
        \<lparr>now = 2000, requests = [''https://freedium-mirror.cfd/https://example.com/test'']\<rparr>
        ''https://freedium-mirror.cfd'' (switched_on getDefaultTransformationRules ! 0)
      = (True,
         \<lparr>healthCache = [''https://freedium-mirror.cfd'' \<mapsto> \<lparr>healthy = True, lastChecked = 1120\<rparr>],
          cacheTtlMs = 300000, timeoutMs = 5000\<rparr>,
         \<lparr>now = 2000, requests = [''https://freedium-mirror.cfd/https://example.com/test'']\<rparr>)"
proof -
  note first = freedium_healthy
  have within: "2000 - lastChecked (the ((healthCache
        \<lparr>healthCache = [''https://freedium-mirror.cfd'' \<mapsto> \<lparr>healthy = True, lastChecked = 1120\<rparr>],
         cacheTtlMs = 300000, timeoutMs = 5000\<rparr>) ''https://freedium-mirror.cfd''))
      < cacheTtlMs \<lparr>healthCache = [''https://freedium-mirror.cfd'' \<mapsto> \<lparr>healthy = True, lastChecked = 1120\<rparr>],
         cacheTtlMs = 300000, timeoutMs = 5000\<rparr>"
    by simp
  from checkProxyHealth_second_call_cached [OF first within, of down_network sample_parser
         "switched_on getDefaultTransformationRules ! 0"] first
  show ?thesis by simp
qed

text \<open>
  Claim C6 (the code departs from it). A request that throws or answers with a status
  outside \<open>[200, 400)\<close> gives \<open>false\<close> (lemma \<open>probe_failure\<close>), the result of the check
  is stored with the time of the store (lemma \<open>checkProxyHealth_miss\<close>), and no
  exception leaves the check. A probe that outlasts the configured timeout is not a
  failure, though: with a timeout of 5000 ms, a proxy that answers 200 after 10000 ms
  is waited for, reported healthy and cached as healthy at time 11000.
\<close>

theorem checkProxyHealthWithTimeout_slow_response:
  "timeoutMs (new_UrlTransformer 5 5000) = 5000
   \<and> delay (slow_network (now start) ''https://freedium-mirror.cfd/https://example.com/test'')
       = 10000
   \<and> checkProxyHealthWithTimeout slow_network (new_UrlTransformer 5 5000) start
        ''https://freedium-mirror.cfd/https://example.com/test''
      = (True, \<lparr>now = 11000,
                requests = [''https://freedium-mirror.cfd/https://example.com/test'']\<rparr>)
   \<and> checkProxyHealth slow_network sample_parser (new_UrlTransformer 5 5000) start
        ''https://freedium-mirror.cfd'' (switched_on getDefaultTransformationRules ! 0)
      = (True,
         \<lparr>healthCache = [''https://freedium-mirror.cfd'' \<mapsto> \<lparr>healthy = True, lastChecked = 11000\<rparr>],
          cacheTtlMs = 300000, timeoutMs = 5000\<rparr>,
         \<lparr>now = 11000, requests = [''https://freedium-mirror.cfd/https://example.com/test'']\<rparr>)"
  by (simp add: checkProxyHealth_def isCacheValid_def new_UrlTransformer_def start_def
      checkProxyHealthWithTimeout_def slow_network_def applyTransformation_def
      string_replace_def TEST_URL_def getDefaultTransformationRules_def switched_on_def)

section \<open>Properties of the transformation engine\<close>

lemma transformUrl_none:
  "findMatchingRule URL url rules = None \<Longrightarrow>
     transformUrl requestUrl URL this w url rules
       = (\<lparr>transformedUrl = Some url, originalUrl = url, appliedRule = None,
            proxyHealthy = True, error = None\<rparr>, this, w)"
  by (simp add: transformUrl_def)

lemma unavailable_message_name:
  "unavailable_message n \<noteq> [] \<and> sublist n (unavailable_message n)"
proof -
  have "unavailable_message n
          = (''Proxy service '' @ [CHR 0x22]) @ n @ ([CHR 0x22] @ '' is currently unavailable'')"
    by (simp add: unavailable_message_def)
  then have "sublist n (unavailable_message n)" unfolding sublist_def by blast
  moreover have "unavailable_message n \<noteq> []" by (simp add: unavailable_message_def)
  ultimately show ?thesis by simp
qed

lemma freedium_matches:
  "findMatchingRule sample_parser article_url (switched_on getDefaultTransformationRules)
     = Some (switched_on getDefaultTransformationRules ! 0)"
  by (simp add: findMatchingRule_def matchesRule_def matchesPattern_def sample_parser_def
      article_url_def getDefaultTransformationRules_def switched_on_def startsWith_def
      endsWith_def substring_from_def suffix_to_prefix)

lemma freedium_expansion:
  "applyTransformation sample_parser article_url (switched_on getDefaultTransformationRules ! 0)
     = ''https://freedium-mirror.cfd/https://blog.medium.com/p/1?x=2''"
  by (simp add: applyTransformation_def string_replace_def article_url_def
      getDefaultTransformationRules_def switched_on_def)

lemma freedium_origin:
  "extractProxyBaseUrl sample_parser ''https://freedium-mirror.cfd/https://blog.medium.com/p/1?x=2''
     = ''https://freedium-mirror.cfd''"
  by (simp add: extractProxyBaseUrl_def sample_parser_def)

text \<open>
  Claim C5. When \<open>findMatchingRule\<close> gives a rule \<open>r\<close>, the result of \<open>transformUrl\<close>
  names \<open>r\<close> and has exactly one of a transformed URL and an error. With \<open>h\<close> the
  answer of the health check for the origin of the expanded URL: if \<open>h\<close> is true the
  transformed URL is the expansion, \<open>proxyHealthy\<close> is true and there is no error; if
  \<open>h\<close> is false there is no transformed URL, \<open>proxyHealthy\<close> is false, and the error
  is a non-empty text in which the name of \<open>r\<close> occurs.
\<close>

theorem transformUrl_matched_outcome:
  "findMatchingRule URL url rules = Some r \<Longrightarrow>
     (let res = fst (transformUrl requestUrl URL this w url rules);
          h = fst (checkProxyHealth requestUrl URL this w
                     (extractProxyBaseUrl URL (applyTransformation URL url r)) r)
      in ((transformedUrl res \<noteq> None) \<noteq> (error res \<noteq> None))
         \<and> appliedRule res = Some (name r)
         \<and> (h \<longrightarrow> transformedUrl res = Some (applyTransformation URL url r)
                   \<and> proxyHealthy res \<and> error res = None)
         \<and> (\<not> h \<longrightarrow> transformedUrl res = None \<and> \<not> proxyHealthy res
                   \<and> (\<exists>e. error res = Some e \<and> e \<noteq> [] \<and> sublist (name r) e)))"
  using unavailable_message_name [of "name r"]
  by (simp add: transformUrl_def Let_def split: prod.splits)

theorem transformUrl_matched_outcome_witness:
  "findMatchingRule sample_parser article_url (switched_on getDefaultTransformationRules)
     = Some (switched_on getDefaultTransformationRules ! 0)
   \<and> fst (transformUrl healthy_network sample_parser (new_UrlTransformer 5 5000) start
             article_url (switched_on getDefaultTransformationRules))
       = \<lparr>transformedUrl = Some ''https://freedium-mirror.cfd/https://blog.medium.com/p/1?x=2'',
          originalUrl = article_url, appliedRule = Some ''Medium via Freedium'',
          proxyHealthy = True, error = None\<rparr>
   \<and> fst (transformUrl down_network sample_parser (new_UrlTransformer 5 5000) start
             article_url (switched_on getDefaultTransformationRules))
       = \<lparr>transformedUrl = None, originalUrl = article_url,
          appliedRule = Some ''Medium via Freedium'', proxyHealthy = False,
          error = Some (unavailable_message ''Medium via Freedium'')\<rparr>"
proof -
  note m = freedium_matches
  have n: "name (switched_on getDefaultTransformationRules ! 0) = ''Medium via Freedium''"
    by (simp add: getDefaultTransformationRules_def switched_on_def)
  have up: "fst (transformUrl healthy_network sample_parser (new_UrlTransformer 5 5000) start
             article_url (switched_on getDefaultTransformationRules))
       = \<lparr>transformedUrl = Some ''https://freedium-mirror.cfd/https://blog.medium.com/p/1?x=2'',
          originalUrl = article_url, appliedRule = Some ''Medium via Freedium'',
          proxyHealthy = True, error = None\<rparr>"
    using transformUrl_matched_outcome [OF m, of healthy_network "new_UrlTransformer 5 5000" start]
    by (simp add: Let_def freedium_expansion freedium_origin freedium_healthy n
        transformUrl_def m)
  have down: "fst (transformUrl down_network sample_parser (new_UrlTransformer 5 5000) start
             article_url (switched_on getDefaultTransformationRules))
       = \<lparr>transformedUrl = None, originalUrl = article_url,
          appliedRule = Some ''Medium via Freedium'', proxyHealthy = False,
          error = Some (unavailable_message ''Medium via Freedium'')\<rparr>"
    using transformUrl_matched_outcome [OF m, of down_network "new_UrlTransformer 5 5000" start]
    by (simp add: Let_def freedium_expansion freedium_origin freedium_down n
        transformUrl_def m)
  from m up down show ?thesis by blast
qed

text \<open>
  Claim C7. When no rule of the list is applicable to the URL, \<open>transformUrl\<close> returns
  the URL itself as transformed URL, \<open>proxyHealthy\<close> true, no applied rule and no
  error, and it leaves the transformer and the world as they were: nothing is requested
  and nothing is cached.
\<close>

theorem transformUrl_pass_through:
  "\<forall>r\<in>set rules. \<not> matchesRule URL url r \<Longrightarrow>
     transformUrl requestUrl URL this w url rules
       = (\<lparr>transformedUrl = Some url, originalUrl = url, appliedRule = None,
            proxyHealthy = True, error = None\<rparr>, this, w)"
  by (simp add: transformUrl_none findMatchingRule_None)

theorem transformUrl_pass_through_witness:
  "\<not> (\<exists>r\<in>set getDefaultTransformationRules. matchesRule sample_parser article_url r)
   \<and> transformUrl down_network sample_parser (new_UrlTransformer 5 5000) start article_url
         getDefaultTransformationRules
       = (\<lparr>transformedUrl = Some article_url, originalUrl = article_url, appliedRule = None,
            proxyHealthy = True, error = None\<rparr>, new_UrlTransformer 5 5000, start)"
proof -
  have none: "\<forall>r\<in>set getDefaultTransformationRules. \<not> matchesRule sample_parser article_url r"
    by (simp add: matchesRule_def getDefaultTransformationRules_def)
  from transformUrl_pass_through [OF none] none show ?thesis by blast
qed

section \<open>Properties of the auto-processing decision\<close>

lemma trim_delimiter: "3 \<le> length (trim (''---'' @ rest))"
proof -
  have d: "\<not> isWhiteSpace CHR ''-''" by (simp add: isWhiteSpace_def)
  have "dropWhile isWhiteSpace (''---'' @ rest) = ''---'' @ rest" using d by simp
  then have t: "trim (''---'' @ rest) = rev (dropWhile isWhiteSpace (rev rest @ ''---''))"
    by (simp add: trim_def)
  have "dropWhile isWhiteSpace (rev rest @ ''---'') = dropWhile isWhiteSpace (rev rest) @ ''---''
        \<or> dropWhile isWhiteSpace (rev rest @ ''---'') = ''---''"
    using d by (cases "\<forall>x\<in>set (rev rest). isWhiteSpace x") (simp_all add: dropWhile_append)
  then show ?thesis using t by auto
qed

text \<open>
  The host's \<open>to\<close> is the end of the contents of the front-matter block, so the text
  from \<open>to\<close> on begins with the closing delimiter. The delimiter is then counted: the
  measured length is at least 3, also when nothing follows the block.
\<close>

lemma getBodyContentLength_front_matter:
  assumes "fm_exists (info content)"
      and "substring_from content (fm_to (info content)) = ''---'' @ rest"
  shows "3 \<le> getBodyContentLength info content"
  using assms trim_delimiter [of rest] by (simp add: getBodyContentLength_def Let_def)

lemma getBodyContentLength_stub_note: "getBodyContentLength sample_front_matter stub_note = 3"
  by (simp add: getBodyContentLength_def sample_front_matter_def stub_note_def
      substring_from_def trim_def isWhiteSpace_def)

text \<open>The same length results when \<open>to\<close> is the offset of the line break before the delimiter.\<close>

lemma getBodyContentLength_stub_note_line_break:
  "getBodyContentLength
     (\<lambda>note. \<lparr>fm_exists = True, fm_from = 4, fm_to = 30, fm_contentStart = 35\<rparr>) stub_note = 3"
  by (simp add: getBodyContentLength_def stub_note_def substring_from_def trim_def
      isWhiteSpace_def)






text \<open>
  The quotient of the lengths 21 and 10 is the double that the literal \<open>2.1\<close> denotes,
  which is above the exact quotient.
\<close>

lemma double_div_example: "double_div 21 10 = 4728779608739021 / 2 ^ 51"
  by (simp add: double_div_def round_half_even_def bits.simps Let_def)

lemma contentRatio_boundary: "\<not> contentRatio 100 199 \<ge> 2" "contentRatio 100 200 \<ge> 2"
  by (simp_all add: contentRatio_def double_div_def round_half_even_def bits.simps Let_def)

text \<open>
  When the note is not marked, a URL is found, the transformer gives a URL, an article
  is fetched and the vault accepts the append, the function returns whether the ratio
  reaches the threshold.
\<close>

lemma autoProcess_reaches_ratio:
  assumes "\<not> isFileProcessed env" "vault_read env = Some c"
      and "(if falsy (extractUrlFromFrontmatter env c) then extractUrlFromContent env c
            else extractUrlFromFrontmatter env c) = Some u" "u \<noteq> []"
      and "t_url (transformUrlIfNeeded env u) = Some tu" "tu \<noteq> []"
      and "getMarkdownContent env tu = Some a" "a \<noteq> []"
      and "\<not> vault_append_throws env"
  shows "fst (autoProcessFileIfLonger env r)
           = (contentRatio (getBodyContentLength (getFrontMatterInfo env) c) (length a) \<ge> r)"
  using assms by (simp add: autoProcessFileIfLonger_def Let_def falsy_def)





text \<open>
  Claim C4. When the note carries the processed marker, \<open>autoProcessFileIfLonger\<close>
  returns \<open>false\<close> and does nothing to the note (no front-matter update, no append, no
  marking), whatever the body length, the fetched article and the threshold are, and
  whatever the other collaborators would answer. The note, marker included, is then
  what it was, so every later pass takes the same branch.
\<close>

theorem autoProcess_already_processed:
  "isFileProcessed env \<Longrightarrow> autoProcessFileIfLonger env minContentRatio = (False, [])"
  by (simp add: autoProcessFileIfLonger_def)

theorem autoProcess_already_processed_witness:
  "isFileProcessed (sample_env True marked_note ''a long article'')
   \<and> autoProcessFileIfLonger (sample_env True marked_note ''a long article'') 2.0 = (False, [])
   \<and> autoProcessFileIfLonger (sample_env False stub_note ''a long article'') 2.0
       = (True, [Append (separator @ ''a long article''), MarkFileAsProcessed])"
proof -
  have r: "2 \<le> contentRatio 3 (length ''a long article'')"
    by (simp add: contentRatio_def double_div_def round_half_even_def bits.simps Let_def)
  have run: "autoProcessFileIfLonger (sample_env False stub_note ''a long article'') 2.0
     = (True, [Append (separator @ ''a long article''), MarkFileAsProcessed])"
    using r by (simp add: autoProcessFileIfLonger_def sample_env_def falsy_def Let_def
        getBodyContentLength_stub_note)
  from autoProcess_already_processed [of "sample_env True marked_note ''a long article''" "2.0"]
    run
  show ?thesis by (simp add: sample_env_def)
qed

end
